theory Spec2Isabelle
  imports Complex_Main "HOL-Library.Word"
begin

section \<open>JavaScript strings\<close>

text \<open>
  A JavaScript string is a sequence of UTF-16 code units, and \<open>length\<close> counts code
  units. Every Hebrew letter is one code unit (block U+0590..U+05FF).
\<close>

type_synonym jschar = "16 word"
type_synonym jsstring = "jschar list"

definition ascii :: "string \<Rightarrow> jsstring" where
  "ascii s = map of_char s"

definition LF :: jschar where
  "LF = 0x0A"

definition SP :: jschar where
  "SP = 0x20"

definition BACKTICK :: jschar where
  "BACKTICK = 0x60"

text \<open>
  \<open>String.prototype.trim\<close> removes WhiteSpace and LineTerminator code points from both
  ends: TAB, LF, VT, FF, CR, SP, NBSP, the Unicode space separators, LS, PS and the BOM.
\<close>

definition isWhiteSpace :: "jschar \<Rightarrow> bool" where
  "isWhiteSpace c \<longleftrightarrow>
     c = 0x09 \<or> c = 0x0A \<or> c = 0x0B \<or> c = 0x0C \<or> c = 0x0D \<or> c = 0x20 \<or> c = 0xA0 \<or>
     c = 0x1680 \<or> (0x2000 \<le> c \<and> c \<le> 0x200A) \<or> c = 0x2028 \<or> c = 0x2029 \<or>
     c = 0x202F \<or> c = 0x205F \<or> c = 0x3000 \<or> c = 0xFEFF"

definition trim :: "jsstring \<Rightarrow> jsstring" where
  "trim s = rev (dropWhile isWhiteSpace (rev (dropWhile isWhiteSpace s)))"

text \<open>
  \<open>s.split('\n')\<close>: the pieces between successive line feeds; the empty string gives
  one empty piece.
\<close>

fun split_lines :: "jsstring \<Rightarrow> jsstring list" where
  "split_lines [] = [ []]"
| "split_lines (c # cs) =
     (if c = LF then [] # split_lines cs
      else (case split_lines cs of
              [] \<Rightarrow> [ [c]]
            | l # ls \<Rightarrow> (c # l) # ls))"

text \<open>\<open>xs.join(sep)\<close>.\<close>

fun join :: "jsstring \<Rightarrow> jsstring list \<Rightarrow> jsstring" where
  "join sep [] = []"
| "join sep [x] = x"
| "join sep (x # y # ys) = x @ sep @ join sep (y # ys)"

definition startsWith :: "jsstring \<Rightarrow> jsstring \<Rightarrow> bool" where
  "startsWith s pat \<longleftrightarrow> take (length pat) s = pat"

text \<open>
  \<open>s.replace(/pat/g, rep)\<close> for a literal, non-empty pattern: scan from the left, replace
  each match and resume after it.
\<close>

function replace_all :: "jsstring \<Rightarrow> jsstring \<Rightarrow> jsstring \<Rightarrow> jsstring" where
  "replace_all pat rep [] = []"
| "replace_all pat rep (c # cs) =
     (if startsWith (c # cs) pat \<and> pat \<noteq> []
      then rep @ replace_all pat rep (drop (length pat - 1) cs)
      else c # replace_all pat rep cs)"
  by pat_completeness auto
termination
  by (relation "measure (\<lambda>(pat, rep, s). length s)") auto

text \<open>
  \<open>s.replace("pat", rep)\<close> with a string pattern: only the first occurrence is replaced.
\<close>

fun replace_first :: "jsstring \<Rightarrow> jsstring \<Rightarrow> jsstring \<Rightarrow> jsstring" where
  "replace_first pat rep [] = (if pat = [] then rep else [])"
| "replace_first pat rep (c # cs) =
     (if startsWith (c # cs) pat then rep @ drop (length pat) (c # cs)
      else c # replace_first pat rep cs)"

section \<open>JSON values\<close>

text \<open>
  What \<open>JSON.parse\<close> and \<open>response.json()\<close> produce. \<open>JSON.parse\<close> itself belongs
  to the runtime, not to the repository: it is a parameter of the model
  (\<open>JSON_parse\<close> below, \<open>None\<close> when it throws a SyntaxError). A number carries its
  value; the program only ever asks whether it is zero. The properties of an object are
  listed in insertion order, with distinct keys.
\<close>

datatype json =
    JNull
  | JBool bool
  | JNum rat
  | JStr jsstring
  | JArr "json list"
  | JObj "(jsstring \<times> json) list"

datatype js_error = NetworkError jsstring | SyntaxError | TypeError

text \<open>Truthiness, as tested by \<open>if (v)\<close>, \<open>v || d\<close> and \<open>v ? a : b\<close>.\<close>

fun truthy :: "json \<Rightarrow> bool" where
  "truthy JNull = False"
| "truthy (JBool b) = b"
| "truthy (JNum n) = (n \<noteq> 0)"
| "truthy (JStr s) = (s \<noteq> [])"
| "truthy (JArr xs) = True"
| "truthy (JObj kvs) = True"

text \<open>
  \<open>v.name\<close> for one of the names this program reads (\<open>title\<close>, \<open>items\<close>,
  \<open>volumeInfo\<close>, \<open>imageLinks\<close>, \<open>thumbnail\<close>): reading a property of \<open>null\<close> throws a
  TypeError, an object answers with its own property, and no other value has a property
  of these names (\<open>None\<close> is \<open>undefined\<close>).
\<close>

fun get_prop :: "json \<Rightarrow> jsstring \<Rightarrow> js_error + json option" where
  "get_prop JNull name = Inl TypeError"
| "get_prop (JObj kvs) name = Inr (map_of kvs name)"
| "get_prop v name = Inr None"

text \<open>\<open>x?.name\<close>: \<open>undefined\<close> when \<open>x\<close> is \<open>undefined\<close> or \<open>null\<close>.\<close>

fun opt_prop :: "json option \<Rightarrow> jsstring \<Rightarrow> json option" where
  "opt_prop None name = None"
| "opt_prop (Some JNull) name = None"
| "opt_prop (Some (JObj kvs)) name = map_of kvs name"
| "opt_prop (Some v) name = None"

text \<open>\<open>x?.[0]\<close>: the first element of an array, the first code unit of a string, the
  property \<open>"0"\<close> of an object.\<close>

fun opt_first :: "json option \<Rightarrow> json option" where
  "opt_first None = None"
| "opt_first (Some (JArr xs)) = (case xs of [] \<Rightarrow> None | x # _ \<Rightarrow> Some x)"
| "opt_first (Some (JStr s)) = (case s of [] \<Rightarrow> None | c # _ \<Rightarrow> Some (JStr [c]))"
| "opt_first (Some (JObj kvs)) = map_of kvs (ascii ''0'')"
| "opt_first (Some v) = None"

text \<open>The decimal numeral of an array index, as a property key.\<close>

function decimal :: "nat \<Rightarrow> jsstring" where
  "decimal n = (if n < 10 then [of_nat (48 + n)] else decimal (n div 10) @ [of_nat (48 + n mod 10)])"
  by pat_completeness auto
termination
  by (relation "measure id") auto

text \<open>The own enumerable properties that \<open>{...v}\<close> copies.\<close>

fun spread :: "json \<Rightarrow> (jsstring \<times> json) list" where
  "spread (JObj kvs) = kvs"
| "spread (JArr xs) = zip (map decimal [0..<length xs]) xs"
| "spread (JStr s) = zip (map decimal [0..<length s]) (map (\<lambda>c. JStr [c]) s)"
| "spread v = []"

section \<open>The cover lookup (fetchCoverWithRetry)\<close>

text \<open>
  One \<open>fetch\<close> of the books API either rejects (this also stands for
  \<open>encodeURIComponent\<close> throwing on the title) or answers with a status and a body;
  the body is \<open>None\<close> when \<open>res.json()\<close> rejects.
\<close>

datatype cover_fetch = FetchRejects | Responds nat "json option"

datatype event =
    CallTestAI
  | CallFetchBookData "jsstring list"
  | CoverRequest nat
  | Sleep nat

text \<open>\<open>data.items?.[0]?.volumeInfo?.imageLinks?.thumbnail\<close>\<close>

definition thumbnail_of :: "json \<Rightarrow> js_error + json option" where
  "thumbnail_of data =
     (case get_prop data (ascii ''items'') of
        Inl e \<Rightarrow> Inl e
      | Inr items \<Rightarrow>
          Inr (opt_prop (opt_prop (opt_prop (opt_first items) (ascii ''volumeInfo''))
                 (ascii ''imageLinks'')) (ascii ''thumbnail'')))"

text \<open>
  The body of the \<open>try\<close> block of one iteration: \<open>Backoff\<close> is the 429 branch (sleep,
  then \<open>continue\<close>), \<open>Caught\<close> the \<open>catch\<close> (\<open>continue\<close> at once), \<open>Return r\<close> the
  \<open>return\<close>. Calling \<open>replace\<close> on a truthy thumbnail that is not a string throws.
\<close>

datatype attempt = Backoff | Caught | Return "jsstring option"

definition try_cover :: "cover_fetch \<Rightarrow> attempt" where
  "try_cover f =
     (case f of
        FetchRejects \<Rightarrow> Caught
      | Responds status body \<Rightarrow>
          if status = 429 then Backoff
          else (case body of
                  None \<Rightarrow> Caught
                | Some data \<Rightarrow>
                    (case thumbnail_of data of
                       Inl e \<Rightarrow> Caught
                     | Inr None \<Rightarrow> Return None
                     | Inr (Some thumbnail) \<Rightarrow>
                         if truthy thumbnail
                         then (case thumbnail of
                                 JStr url \<Rightarrow> Return (Some (replace_first (ascii ''http:'') (ascii ''https:'') url))
                               | _ \<Rightarrow> Caught)
                         else Return None)))"

text \<open>
  The \<open>for\<close> loop from index \<open>i\<close>; \<open>net i\<close> is what the \<open>i\<close>-th request meets. The
  result comes with the requests and sleeps performed, in order.
\<close>

function cover_loop :: "(nat \<Rightarrow> cover_fetch) \<Rightarrow> nat \<Rightarrow> nat \<Rightarrow> jsstring option \<times> event list" where
  "cover_loop net retries i =
     (if i < retries then
        (case try_cover (net i) of
           Backoff \<Rightarrow>
             (let (r, evs) = cover_loop net retries (Suc i)
              in (r, CoverRequest i # Sleep 1000 # evs))
         | Caught \<Rightarrow>
             (let (r, evs) = cover_loop net retries (Suc i)
              in (r, CoverRequest i # evs))
         | Return r \<Rightarrow> (r, [CoverRequest i]))
      else (None, []))"
  by pat_completeness auto
termination
  by (relation "measure (\<lambda>(net, retries, i). retries - i)") auto

text \<open>\<open>fetchCoverWithRetry(title)\<close> with the default \<open>retries = 2\<close>.\<close>

definition fetchCoverWithRetry :: "(nat \<Rightarrow> cover_fetch) \<Rightarrow> jsstring option \<times> event list" where
  "fetchCoverWithRetry net = cover_loop net 2 0"

section \<open>The AI endpoint (testAI, fetchBookData)\<close>

text \<open>
  A request to the generate-content endpoint, up to the point where the reply text has
  been read: \<open>AiRejects m\<close> when \<open>fetch\<close>, \<open>response.json()\<close> or the property access
  throws an error with message \<open>m\<close>, otherwise the value of
  \<open>data.candidates?.[0]?.content?.parts?.[0]?.text\<close>, a string or \<open>undefined\<close>.
\<close>

datatype ai_fetch = AiRejects jsstring | AiText "jsstring option"

definition testAI :: "ai_fetch \<Rightarrow> jsstring" where
  "testAI r =
     (case r of
        AiRejects m \<Rightarrow> ascii ''AI Offline: '' @ m
      | AiText None \<Rightarrow> ascii ''No response''
      | AiText (Some t) \<Rightarrow> if t = [] then ascii ''No response'' else t)"

text \<open>
  \<open>BookData\<close>: the object \<open>{ ...bookData, coverUri }\<close>. \<open>props\<close> holds the properties
  copied from the parsed reply; the \<open>coverUri\<close> written last replaces any property of
  that name.
\<close>

record book_data =
  props :: "(jsstring \<times> json) list"
  coverUri :: "jsstring option"

text \<open>
  What one call of \<open>fetchBookData\<close> does: the value it resolves to (\<open>None\<close> is
  \<open>undefined\<close>), the errors passed to \<open>console.error\<close>, and the cover requests and
  sleeps of \<open>fetchCoverWithRetry\<close>.
\<close>

record inference_run =
  returned :: "book_data option"
  console :: "js_error list"
  cover_events :: "event list"

text \<open>
  The world a scan runs in: the OCR function behind \<open>OCR_FUNCTION_URL\<close> (by posted
  payload), the AI endpoint (for the heartbeat prompt, and for the research prompt by the
  OCR lines it embeds), \<open>JSON.parse\<close>, and the books API (by title queried and attempt
  number).
\<close>

record ocr_reply =
  success :: bool
  ocr_text :: "jsstring option"

datatype ocr_fetch = OcrRejects jsstring | OcrReply ocr_reply

record env =
  ocr_service :: "jsstring \<Rightarrow> ocr_fetch"
  heartbeat :: ai_fetch
  inference :: "jsstring list \<Rightarrow> ai_fetch"
  JSON_parse :: "jsstring \<Rightarrow> json option"
  books_api :: "json \<Rightarrow> nat \<Rightarrow> cover_fetch"

text \<open>\<open>resultText.replace(/```json/g, "").replace(/```/g, "").trim()\<close>\<close>

definition cleanJson :: "jsstring \<Rightarrow> jsstring" where
  "cleanJson resultText =
     trim (replace_all (ascii ''```'') [] (replace_all (ascii ''```json'') [] resultText))"

text \<open>\<open>bookData.title || ""\<close>\<close>

definition title_query :: "json \<Rightarrow> js_error + json" where
  "title_query bookData =
     (case get_prop bookData (ascii ''title'') of
        Inl e \<Rightarrow> Inl e
      | Inr None \<Rightarrow> Inr (JStr [])
      | Inr (Some t) \<Rightarrow> Inr (if truthy t then t else JStr []))"

text \<open>
  The rest of the \<open>try\<close> block once a non-empty reply text is there: clean, parse, look
  the cover up, build the record; any exception ends in the \<open>catch\<close>, which logs it and
  returns \<open>undefined\<close>.
\<close>

definition decode_reply :: "env \<Rightarrow> jsstring \<Rightarrow> inference_run" where
  "decode_reply e resultText =
     (case JSON_parse e (cleanJson resultText) of
        None \<Rightarrow> \<lparr>returned = None, console = [SyntaxError], cover_events = []\<rparr>
      | Some bookData \<Rightarrow>
          (case title_query bookData of
             Inl err \<Rightarrow> \<lparr>returned = None, console = [err], cover_events = []\<rparr>
           | Inr title \<Rightarrow>
               (let (cover, evs) = fetchCoverWithRetry (books_api e title)
                in \<lparr>returned =
                      Some \<lparr>props = filter (\<lambda>(k, v). k \<noteq> ascii ''coverUri'') (spread bookData),
                            coverUri = cover\<rparr>,
                    console = [], cover_events = evs\<rparr>)))"

definition fetchBookData :: "env \<Rightarrow> jsstring list \<Rightarrow> inference_run" where
  "fetchBookData e ocrLines =
     (case inference e ocrLines of
        AiRejects m \<Rightarrow> \<lparr>returned = None, console = [NetworkError m], cover_events = []\<rparr>
      | AiText None \<Rightarrow> \<lparr>returned = None, console = [], cover_events = []\<rparr>
      | AiText (Some resultText) \<Rightarrow>
          if resultText = [] then \<lparr>returned = None, console = [], cover_events = []\<rparr>
          else decode_reply e resultText)"

section \<open>The OCR cloud function (performOcr)\<close>

text \<open>
  The argument is \<open>result.fullTextAnnotation.text\<close>, \<open>None\<close> when the annotation or its
  text is missing.
\<close>

definition performOcr :: "jsstring option \<Rightarrow> jsstring" where
  "performOcr fullText =
     (case fullText of
        None \<Rightarrow> []
      | Some t \<Rightarrow>
          if t = [] then []
          else trim (join [SP] (take 3 (filter (\<lambda>line. 1 < length (trim line)) (split_lines t)))))"

text \<open>The body \<open>ocrHandler\<close> sends with status 200.\<close>

definition ocrHandler_reply :: "jsstring \<Rightarrow> ocr_reply" where
  "ocrHandler_reply extractedText = \<lparr>success = True, ocr_text = Some extractedText\<rparr>"

section \<open>The scan (handleScanCover)\<close>

text \<open>
  The image encoder is a promise around a \<open>FileReader\<close> and an \<open>Image\<close>: it rejects
  when the file cannot be read (\<open>reader.onerror\<close>), resolves from \<open>img.onload\<close> with
  the base64 payload of the re-encoded JPEG, and has no handler for an image that fails
  to load, so that the promise then stays pending.
\<close>

datatype image_file = Unreadable | Undecodable | Decodable jsstring

datatype 'a promise = Resolved 'a | Rejected jsstring | Pending

definition encodeImage :: "image_file \<Rightarrow> jsstring promise" where
  "encodeImage file =
     (case file of
        Unreadable \<Rightarrow> Rejected (ascii ''Read failed'')
      | Undecodable \<Rightarrow> Pending
      | Decodable base64 \<Rightarrow> Resolved base64)"

record ui_state =
  ocrLines :: "jsstring list"
  bookResult :: "book_data option"
  isLoading :: bool
  aiStatus :: jsstring
  error :: "jsstring option"

text \<open>
  A run of the handler: the component state it leaves, the calls it made into the AI and
  cover clients, and whether it ran to its end (\<open>settled\<close>) or is left awaiting a promise
  that never settles.
\<close>

record scan_run =
  ui :: ui_state
  calls :: "event list"
  settled :: bool

definition extract_lines :: "jsstring \<Rightarrow> jsstring list" where
  "extract_lines t = filter (\<lambda>l. 1 < length l) (map trim (split_lines t))"

definition placeholder :: book_data where
  "placeholder =
     \<lparr>props = [(ascii ''title'', JStr (ascii ''Identification Failed'')),
                (ascii ''description'', JStr (ascii ''AI is online but this book isn't in its index.''))],
      coverUri = None\<rparr>"

definition reset :: ui_state where
  "reset = \<lparr>ocrLines = [], bookResult = None, isLoading = True, aiStatus = [], error = None\<rparr>"

text \<open>The \<open>catch\<close> and the \<open>else\<close> branch: an error message, then \<open>finally\<close>.\<close>

definition fail_with :: "jsstring \<Rightarrow> scan_run" where
  "fail_with msg =
     \<lparr>ui = reset\<lparr>error := Some msg, isLoading := False\<rparr>, calls = [], settled = True\<rparr>"

text \<open>The branch taken when \<open>data.success && data.text\<close> holds, \<open>t\<close> being the text.\<close>

definition identify :: "env \<Rightarrow> jsstring \<Rightarrow> scan_run" where
  "identify e t =
     (let lines = extract_lines t;
          status = testAI (heartbeat e);
          run = fetchBookData e lines
      in \<lparr>ui = reset\<lparr>ocrLines := lines,
                       aiStatus := ascii ''AI Status: '' @ status,
                       bookResult :=
                         (case returned run of
                            Some result \<Rightarrow> Some result
                          | None \<Rightarrow> Some placeholder),
                       isLoading := False\<rparr>,
          calls = CallTestAI # CallFetchBookData lines # cover_events run,
          settled = True\<rparr>)"

definition handleScanCover :: "env \<Rightarrow> ui_state \<Rightarrow> image_file option \<Rightarrow> scan_run" where
  "handleScanCover e s0 file =
     (case file of
        None \<Rightarrow> \<lparr>ui = s0, calls = [], settled = True\<rparr>
      | Some f \<Rightarrow>
          (case encodeImage f of
             Pending \<Rightarrow> \<lparr>ui = reset, calls = [], settled = False\<rparr>
           | Rejected m \<Rightarrow> fail_with (ascii ''Error: '' @ m)
           | Resolved base64 \<Rightarrow>
               (case ocr_service e base64 of
                  OcrRejects m \<Rightarrow> fail_with (ascii ''Error: '' @ m)
                | OcrReply data \<Rightarrow>
                    if success data
                    then (case ocr_text data of
                            None \<Rightarrow> fail_with (ascii ''No text detected.'')
                          | Some t \<Rightarrow>
                              if t = [] then fail_with (ascii ''No text detected.'')
                              else identify e t)
                    else fail_with (ascii ''No text detected.''))))"

section \<open>Auxiliary notions and sample data\<close>

text \<open>The number of code units of a string that are not white space.\<close>

definition ink :: "jsstring \<Rightarrow> nat" where
  "ink s = length (filter (\<lambda>c. \<not> isWhiteSpace c) s)"

text \<open>\<open>s.includes(pat)\<close>\<close>

fun contains :: "jsstring \<Rightarrow> jsstring \<Rightarrow> bool" where
  "contains [] pat = (pat = [])"
| "contains (c # cs) pat = (startsWith (c # cs) pat \<or> contains cs pat)"

text \<open>A reply text wrapped in a Markdown code fence: three backticks and \<open>json\<close>, a
  line feed, the text, a line feed, three backticks.\<close>

definition fence :: "jsstring \<Rightarrow> jsstring" where
  "fence s = ascii ''```json'' @ [LF] @ s @ [LF] @ ascii ''```''"

definition quoted :: "jsstring \<Rightarrow> jsstring" where
  "quoted s = [0x22] @ s @ [0x22]"

text \<open>The cover text of the specification's example: the poet's name, an empty line, a
  stray letter, the title.\<close>

definition hebrew_cover :: jsstring where
  "hebrew_cover =
     [0x5E2, 0x5DE, 0x5D9, 0x5D7, 0x5D9, 0x0A, 0x0A, 0x5EA, 0x0A,
      0x5E9, 0x5D9, 0x5E8, 0x5D9, 0x20, 0x5D0, 0x5D4, 0x5D1, 0x5D4]"

text \<open>The JSON text \<open>{"title":"X"}\<close> and the value \<open>JSON.parse\<close> gives it.\<close>

definition title_reply :: jsstring where
  "title_reply = ascii ''{'' @ quoted (ascii ''title'') @ ascii '':'' @ quoted (ascii ''X'') @ ascii ''}''"

definition title_record :: json where
  "title_record = JObj [(ascii ''title'', JStr (ascii ''X''))]"

text \<open>\<open>JSON.parse\<close> on the three texts the examples use: \<open>{"title":"X"}\<close>, \<open>{}\<close> and
  \<open>not json\<close> (a SyntaxError, as is every other text here).\<close>

definition sample_parse :: "jsstring \<Rightarrow> json option" where
  "sample_parse s =
     (if s = title_reply then Some title_record
      else if s = ascii ''{}'' then Some (JObj [])
      else None)"

text \<open>A books API answer whose first volume has the given thumbnail.\<close>

definition volume_with_thumbnail :: "jsstring \<Rightarrow> json" where
  "volume_with_thumbnail url =
     JObj [(ascii ''items'',
            JArr [JObj [(ascii ''volumeInfo'',
                         JObj [(ascii ''imageLinks'',
                                JObj [(ascii ''thumbnail'', JStr url)])])]])]"

text \<open>A world for the examples: the OCR function returns the example cover text, the AI
  answers the heartbeat and replies with the fenced \<open>{"title":"X"}\<close>, the books API is
  rate limited once and then answers with an \<open>http:\<close> thumbnail.\<close>

definition sample_env :: env where
  "sample_env =
     \<lparr>ocr_service = (\<lambda>base64. OcrReply \<lparr>success = True, ocr_text = Some hebrew_cover\<rparr>),
      heartbeat = AiText (Some (ascii ''AI Heartbeat: OK'')),
      inference = (\<lambda>ocrLines. AiText (Some (fence title_reply))),
      JSON_parse = sample_parse,
      books_api = (\<lambda>title i. if i = 0 then Responds 429 None
                                else Responds 200 (Some (volume_with_thumbnail (ascii ''http://books.example/x.jpg''))))\<rparr>"

text \<open>Two more lines of a cover: the publisher, then a price.\<close>

definition publisher_line :: jsstring where
  "publisher_line = [0x5E2, 0x5DD, 0x20, 0x5E2, 0x5D5, 0x5D1, 0x5D3]"

definition price_line :: jsstring where
  "price_line = [0x20AA, 0x20, 0x39, 0x38]"

text \<open>The same world with an OCR reply that holds a single stray letter.\<close>

definition noise_env :: env where
  "noise_env = sample_env\<lparr>ocr_service := \<lambda>base64. OcrReply \<lparr>success = True, ocr_text = Some [0x5EA]\<rparr>\<rparr>"

text \<open>Worlds in which the AI replies with \<open>{}\<close>, or with text that is not JSON.\<close>

definition empty_record_env :: env where
  "empty_record_env = sample_env\<lparr>inference := \<lambda>ocrLines. AiText (Some (ascii ''{}''))\<rparr>"

definition malformed_env :: env where
  "malformed_env = sample_env\<lparr>inference := \<lambda>ocrLines. AiText (Some (ascii ''not json''))\<rparr>"

text \<open>What the client reads from the body \<open>ocrHandler\<close> sends with status 500.\<close>

definition server_error_reply :: ocr_reply where
  "server_error_reply = \<lparr>success = False, ocr_text = None\<rparr>"

section \<open>Facts about the string operations\<close>

lemma split_lines_not_Nil: "split_lines s \<noteq> []"
  by (induction s) (auto split: list.splits)

lemma join_Cons: "ls \<noteq> [] \<Longrightarrow> join sep (l # ls) = l @ sep @ join sep ls"
  by (cases ls) auto

lemma join_split_lines: "join [LF] (split_lines s) = s"
proof (induction s)
  case Nil
  show ?case by simp
next
  case (Cons c s)
  show ?case
  proof (cases "c = LF")
    case True
    with Cons show ?thesis by (simp add: join_Cons split_lines_not_Nil)
  next
    case False
    obtain l ls where sp: "split_lines s = l # ls"
      using split_lines_not_Nil [of s] by (cases "split_lines s") auto
    with Cons False show ?thesis by (cases ls) auto
  qed
qed

lemma split_lines_no_LF: "l \<in> set (split_lines s) \<Longrightarrow> LF \<notin> set l"
  by (induction s arbitrary: l) (auto split: if_splits list.splits)

lemma split_lines_single: "LF \<notin> set s \<Longrightarrow> split_lines s = [s]"
  by (induction s) auto

lemma split_lines_append: "split_lines (s @ LF # u) = split_lines s @ split_lines u"
proof (induction s)
  case Nil
  show ?case by simp
next
  case (Cons c s)
  show ?case
  proof (cases "c = LF")
    case True
    with Cons show ?thesis by simp
  next
    case False
    obtain l ls where sp: "split_lines s = l # ls"
      using split_lines_not_Nil [of s] by (cases "split_lines s") auto
    with Cons False show ?thesis by simp
  qed
qed

lemma set_trim: "set (trim s) \<subseteq> set s"
proof -
  have "set (trim s) = set (dropWhile isWhiteSpace (rev (dropWhile isWhiteSpace s)))"
    by (simp add: trim_def)
  also have "\<dots> \<subseteq> set (rev (dropWhile isWhiteSpace s))"
    by (rule set_dropWhileD [THEN subsetI])
  also have "\<dots> \<subseteq> set s"
    using set_dropWhileD by fastforce
  finally show ?thesis .
qed

lemma isWhiteSpace_LF: "isWhiteSpace LF"
  by (simp add: isWhiteSpace_def LF_def)

lemma trim_ws_Cons: "isWhiteSpace c \<Longrightarrow> trim (c # s) = trim s"
  by (simp add: trim_def)

lemma trim_ws_snoc:
  assumes "isWhiteSpace c"
  shows "trim (s @ [c]) = trim s"
proof (cases "\<forall>x \<in> set s. isWhiteSpace x")
  case True
  with assms have a: "dropWhile isWhiteSpace (s @ [c]) = []" by simp
  from True have b: "dropWhile isWhiteSpace s = []" by simp
  show ?thesis by (simp only: trim_def a b)
next
  case False
  then obtain x where "x \<in> set s" "\<not> isWhiteSpace x" by auto
  then have "dropWhile isWhiteSpace (s @ [c]) = dropWhile isWhiteSpace s @ [c]"
    by (rule dropWhile_append1)
  with assms show ?thesis by (simp add: trim_def)
qed

lemma last_dropWhile: "dropWhile P xs \<noteq> [] \<Longrightarrow> last (dropWhile P xs) = last xs"
  by (induction xs) (auto split: if_splits)

lemma trim_ends:
  assumes "trim s \<noteq> []"
  shows "\<not> isWhiteSpace (hd (trim s))" and "\<not> isWhiteSpace (last (trim s))"
proof -
  let ?d = "dropWhile isWhiteSpace s"
  let ?e = "dropWhile isWhiteSpace (rev ?d)"
  from assms have e: "?e \<noteq> []" by (simp add: trim_def)
  have d: "?d \<noteq> []"
  proof
    assume "?d = []"
    then have "?e = []" by (simp only: rev.simps dropWhile.simps)
    with e show False by (rule notE)
  qed
  have "hd (trim s) = last ?e" using e by (simp add: trim_def hd_rev)
  also have "\<dots> = last (rev ?d)" using e by (rule last_dropWhile)
  also have "\<dots> = hd ?d" using d by (simp add: last_rev)
  finally show "\<not> isWhiteSpace (hd (trim s))" using hd_dropWhile [OF d] by simp
  have "last (trim s) = hd ?e" using e by (simp add: trim_def last_rev)
  then show "\<not> isWhiteSpace (last (trim s))" using hd_dropWhile [OF e] by simp
qed

lemma trim_idem: "trim (trim s) = trim s"
proof (cases "trim s = []")
  case True
  have "trim [] = []" by (simp add: trim_def)
  with True show ?thesis by (simp only:)
next
  case False
  have a: "dropWhile isWhiteSpace (trim s) = trim s"
    using trim_ends(1) [OF False] False by (simp add: dropWhile_eq_self_iff)
  have b: "dropWhile isWhiteSpace (rev (trim s)) = rev (trim s)"
    using trim_ends(2) [OF False] False by (simp add: dropWhile_eq_self_iff hd_rev)
  have "trim (trim s) = rev (dropWhile isWhiteSpace (rev (dropWhile isWhiteSpace (trim s))))"
    by (simp add: trim_def)
  also have "\<dots> = trim s" by (simp only: a b rev_rev_ident)
  finally show ?thesis .
qed

lemma filter_dropWhile_neg: "filter (\<lambda>c. \<not> P c) (dropWhile P s) = filter (\<lambda>c. \<not> P c) s"
  by (induction s) auto

lemma ink_trim: "ink (trim s) = ink s"
  by (simp add: ink_def trim_def filter_dropWhile_neg flip: rev_filter)

lemma ink_le_length: "ink s \<le> length s"
  by (simp add: ink_def)

lemma ink_append: "ink (a @ b) = ink a + ink b"
  by (simp add: ink_def)

lemma ink_ge_2:
  assumes "1 < length (trim l)"
  shows "2 \<le> ink l"
proof -
  from assms obtain a t where t: "trim l = a # t" "t \<noteq> []"
    by (cases "trim l") auto
  then have ne: "trim l \<noteq> []" by simp
  have "\<not> isWhiteSpace a" using trim_ends(1) [OF ne] t by simp
  moreover have "\<not> isWhiteSpace (last t)" using trim_ends(2) [OF ne] t by simp
  then have "filter (\<lambda>c. \<not> isWhiteSpace c) t \<noteq> []"
    using t(2) last_in_set [OF t(2)] by (auto simp: filter_empty_conv)
  then have "1 \<le> ink t" by (cases "filter (\<lambda>c. \<not> isWhiteSpace c) t") (auto simp: ink_def)
  ultimately have "2 \<le> ink (trim l)" using t by (simp add: ink_def)
  then show ?thesis by (simp add: ink_trim)
qed

lemma ink_join_Cons: "ink l \<le> ink (join sep (l # ls))"
  by (cases ls) (simp_all add: ink_append)

lemma set_join: "set (join sep ls) \<subseteq> set sep \<union> \<Union> (set ` set ls)"
  by (induction sep ls rule: join.induct) auto

lemma replace_all_skip:
  "p \<notin> set s \<Longrightarrow> replace_all (p # ps) rep (s @ u) = s @ replace_all (p # ps) rep u"
  by (induction s) (auto simp: startsWith_def)

lemma replace_all_fixed: "p \<notin> set s \<Longrightarrow> replace_all (p # ps) rep s = s"
  using replace_all_skip [of p s ps rep "[]"] by simp

lemma cleanJson_plain:
  assumes "BACKTICK \<notin> set s"
  shows "cleanJson s = trim s"
proof -
  have p: "ascii ''```json'' = BACKTICK # ascii ''``json''" "ascii ''```'' = BACKTICK # ascii ''``''"
    by (simp_all add: ascii_def BACKTICK_def)
  show ?thesis
    unfolding cleanJson_def p using assms by (simp add: replace_all_fixed)
qed

lemma cleanJson_fence:
  assumes "BACKTICK \<notin> set s"
  shows "cleanJson (fence s) = trim s"
proof -
  have p: "ascii ''```json'' = BACKTICK # ascii ''``json''" "ascii ''```'' = BACKTICK # ascii ''``''"
    by (simp_all add: ascii_def BACKTICK_def)
  have ne: "LF \<noteq> BACKTICK" by (simp add: LF_def BACKTICK_def)
  have tail1: "replace_all (ascii ''```json'') [] (LF # ascii ''```'') = LF # ascii ''```''"
    by (simp add: ascii_def startsWith_def LF_def)
  have tail2: "replace_all (ascii ''```'') [] (LF # ascii ''```'') = [LF]"
    by (simp add: ascii_def startsWith_def LF_def)
  have "replace_all (ascii ''```json'') [] (fence s) =
        replace_all (ascii ''```json'') [] ((LF # s) @ LF # ascii ''```'')"
    by (simp add: fence_def ascii_def startsWith_def)
  also have "\<dots> = (LF # s) @ replace_all (ascii ''```json'') [] (LF # ascii ''```'')"
    unfolding p using assms ne by (intro replace_all_skip) auto
  also have "\<dots> = (LF # s) @ LF # ascii ''```''"
    by (simp only: tail1)
  finally have one: "replace_all (ascii ''```json'') [] (fence s) = (LF # s) @ LF # ascii ''```''" .
  have "replace_all (ascii ''```'') [] ((LF # s) @ LF # ascii ''```'') =
        (LF # s) @ replace_all (ascii ''```'') [] (LF # ascii ''```'')"
    unfolding p using assms ne by (intro replace_all_skip) auto
  also have "\<dots> = (LF # s) @ [LF]"
    by (simp only: tail2)
  finally have two: "replace_all (ascii ''```'') [] ((LF # s) @ LF # ascii ''```'') = (LF # s) @ [LF]" .
  show ?thesis
    unfolding cleanJson_def one two
    using trim_ws_snoc [OF isWhiteSpace_LF, of "LF # s"] by (simp add: trim_ws_Cons isWhiteSpace_LF)
qed

lemma fence_not_Nil: "fence s \<noteq> []"
  by (simp add: fence_def ascii_def)

lemma replace_first_prefix:
  "startsWith s pat \<Longrightarrow> s \<noteq> [] \<Longrightarrow> replace_first pat rep s = rep @ drop (length pat) s"
  by (cases s) auto

lemma replace_first_absent: "\<not> contains s pat \<Longrightarrow> replace_first pat rep s = s"
  by (induction s) auto

section \<open>Facts about the scan and the cover loop\<close>

lemma error_identify: "error (ui (identify e t)) = None"
  by (simp add: identify_def reset_def Let_def)

lemma fail_with_simps:
  "error (ui (fail_with m)) = Some m" "calls (fail_with m) = []" "settled (fail_with m)"
  "bookResult (ui (fail_with m)) = None" "ocrLines (ui (fail_with m)) = []"
  "\<not> isLoading (ui (fail_with m))"
  by (simp_all add: fail_with_def reset_def)

lemma cover_loop_two:
  "cover_loop net 2 0 =
     (case try_cover (net 0) of
        Return r \<Rightarrow> (r, [CoverRequest 0])
      | Backoff \<Rightarrow>
          (case try_cover (net 1) of
             Return r \<Rightarrow> (r, [CoverRequest 0, Sleep 1000, CoverRequest 1])
           | Backoff \<Rightarrow> (None, [CoverRequest 0, Sleep 1000, CoverRequest 1, Sleep 1000])
           | Caught \<Rightarrow> (None, [CoverRequest 0, Sleep 1000, CoverRequest 1]))
      | Caught \<Rightarrow>
          (case try_cover (net 1) of
             Return r \<Rightarrow> (r, [CoverRequest 0, CoverRequest 1])
           | Backoff \<Rightarrow> (None, [CoverRequest 0, CoverRequest 1, Sleep 1000])
           | Caught \<Rightarrow> (None, [CoverRequest 0, CoverRequest 1])))"
proof -
  have two: "cover_loop net 2 2 = (None, [])"
    by (simp add: cover_loop.simps [of net 2 2])
  have one: "cover_loop net 2 (Suc 0) =
      (case try_cover (net 1) of
         Backoff \<Rightarrow> (None, [CoverRequest 1, Sleep 1000])
       | Caught \<Rightarrow> (None, [CoverRequest 1])
       | Return r \<Rightarrow> (r, [CoverRequest 1]))"
    using two by (simp add: cover_loop.simps [of net 2 "Suc 0"] numeral_2_eq_2 split: attempt.splits)
  show ?thesis
    by (simp add: cover_loop.simps [of net 2 0] one split: attempt.splits)
qed

lemma no_record_no_cover_request:
  "returned (fetchBookData e ls) = None \<Longrightarrow> cover_events (fetchBookData e ls) = []"
  by (auto simp: fetchBookData_def decode_reply_def
      split: ai_fetch.splits option.splits sum.splits prod.splits if_splits)

lemma performOcr_cases:
  obtains "performOcr v = []"
  | t l ls where "v = Some t" "l # ls = take 3 (filter (\<lambda>line. 1 < length (trim line)) (split_lines t))"
      "performOcr v = trim (join [SP] (l # ls))"
proof (cases v)
  case None
  then have "performOcr v = []" by (simp add: performOcr_def)
  then show ?thesis by (rule that(1))
next
  case (Some t)
  show ?thesis
  proof (cases "t = [] \<or> take 3 (filter (\<lambda>line. 1 < length (trim line)) (split_lines t)) = []")
    case True
    with Some have "performOcr v = []" by (auto simp: performOcr_def trim_def)
    then show ?thesis by (rule that(1))
  next
    case False
    then obtain l ls where "l # ls = take 3 (filter (\<lambda>line. 1 < length (trim line)) (split_lines t))"
      by (cases "take 3 (filter (\<lambda>line. 1 < length (trim line)) (split_lines t))") auto
    moreover from this False Some have "performOcr v = trim (join [SP] (l # ls))"
      by (simp add: performOcr_def)
    ultimately show ?thesis using Some by (intro that(2)) auto
  qed
qed

lemma extract_lines_performOcr:
  "extract_lines (performOcr v) = (if performOcr v = [] then [] else [performOcr v])"
proof (cases v rule: performOcr_cases)
  case 1
  then show ?thesis by (simp add: extract_lines_def trim_def)
next
  case (2 t l ls)
  let ?q = "filter (\<lambda>line. 1 < length (trim line)) (split_lines t)"
  let ?r = "performOcr v"
  from 2(2) have sub: "set (l # ls) \<subseteq> set ?q" by (metis set_take_subset)
  then have "1 < length (trim l)" by auto
  then have "2 \<le> ink l" by (rule ink_ge_2)
  also have "\<dots> \<le> ink (join [SP] (l # ls))" by (rule ink_join_Cons)
  also have "\<dots> = ink ?r" by (simp add: 2(3) ink_trim)
  finally have ink: "2 \<le> ink ?r" .
  then have len: "1 < length ?r" using ink_le_length [of ?r] by simp
  have "\<forall>x \<in> set (l # ls). LF \<notin> set x" using sub split_lines_no_LF by auto
  moreover have "LF \<noteq> SP" by (simp add: LF_def SP_def)
  ultimately have "LF \<notin> set (join [SP] (l # ls))" using set_join [of "[SP]" "l # ls"] by auto
  then have "LF \<notin> set ?r" using set_trim [of "join [SP] (l # ls)"] by (auto simp: 2(3))
  then have "split_lines ?r = [?r]" by (rule split_lines_single)
  moreover have "trim ?r = ?r" by (simp add: 2(3) trim_idem)
  ultimately show ?thesis using len by (auto simp: extract_lines_def)
qed

lemma qualifying_not_Nil:
  "filter (\<lambda>line. 1 < length (trim line)) (split_lines t) \<noteq> [] \<Longrightarrow> t \<noteq> []"
  by (auto simp: trim_def)

section \<open>Text extraction\<close>

text \<open>
  C4. Whenever the OCR function answers with \<open>success\<close> and a text, the lines the scan
  keeps are the pieces of that text between line feeds, each trimmed, of which exactly
  those longer than one code unit remain, in their order. The pieces are a real split:
  joined with line feeds they give the text back, and none contains a line feed. The
  example of the specification is evaluated in the witness.
\<close>

theorem extracted_lines_filtered_in_order:
  assumes "ocr_service e base64 = OcrReply data" and "success data" and "ocr_text data = Some t"
  shows "ocrLines (ui (handleScanCover e s0 (Some (Decodable base64)))) =
           filter (\<lambda>l. 1 < length l) (map trim (split_lines t)) \<and>
         join [LF] (split_lines t) = t \<and> (\<forall>l \<in> set (split_lines t). LF \<notin> set l)"
proof -
  have "extract_lines [] = []"
    by (simp add: extract_lines_def trim_def)
  then have "ocrLines (ui (handleScanCover e s0 (Some (Decodable base64)))) = extract_lines t"
    using assms
    by (simp add: handleScanCover_def encodeImage_def fail_with_def identify_def reset_def Let_def)
  then show ?thesis
    by (simp add: extract_lines_def join_split_lines split_lines_no_LF)
qed

theorem extracted_lines_filtered_in_order_witness:
  "ocr_service sample_env [] = OcrReply \<lparr>success = True, ocr_text = Some hebrew_cover\<rparr> \<and>
   ocrLines (ui (handleScanCover sample_env reset (Some (Decodable [])))) =
     [ [0x5E2, 0x5DE, 0x5D9, 0x5D7, 0x5D9], [0x5E9, 0x5D9, 0x5E8, 0x5D9, 0x20, 0x5D0, 0x5D4, 0x5D1, 0x5D4]]"
proof -
  have a: "ocr_service sample_env [] = OcrReply \<lparr>success = True, ocr_text = Some hebrew_cover\<rparr>"
    by (simp add: sample_env_def)
  have "filter (\<lambda>l. 1 < length l) (map trim (split_lines hebrew_cover)) =
     [ [0x5E2, 0x5DE, 0x5D9, 0x5D7, 0x5D9], [0x5E9, 0x5D9, 0x5E8, 0x5D9, 0x20, 0x5D0, 0x5D4, 0x5D1, 0x5D4]]"
    by (simp add: hebrew_cover_def LF_def trim_def isWhiteSpace_def)
  then show ?thesis
    using a extracted_lines_filtered_in_order [OF a, of hebrew_cover reset] by simp
qed

text \<open>
  C10. The OCR function returns the first three lines of the detected text whose trimmed
  length exceeds one, joined by single spaces and trimmed: once three such lines have been
  seen, whatever follows (publisher, price) does not change the result. The returned
  text holds no line feed, so the client's lines are that one text, or none.
\<close>

theorem performOcr_keeps_first_three_lines:
  "(3 \<le> length (filter (\<lambda>line. 1 < length (trim line)) (split_lines t)) \<longrightarrow>
      performOcr (Some (t @ LF # rest)) = performOcr (Some t)) \<and>
   (t \<noteq> [] \<longrightarrow>
      performOcr (Some t) =
        trim (join [SP] (take 3 (filter (\<lambda>line. 1 < length (trim line)) (split_lines t))))) \<and>
   performOcr None = [] \<and> performOcr (Some []) = [] \<and>
   extract_lines (performOcr v) = (if performOcr v = [] then [] else [performOcr v]) \<and>
   length (extract_lines (performOcr v)) \<le> 1"
proof -
  have "performOcr (Some (t @ LF # rest)) = performOcr (Some t)"
    if "3 \<le> length (filter (\<lambda>line. 1 < length (trim line)) (split_lines t))"
  proof -
    from that have "filter (\<lambda>line. 1 < length (trim line)) (split_lines t) \<noteq> []" by auto
    then have "t \<noteq> []" by (rule qualifying_not_Nil)
    with that show ?thesis by (simp add: performOcr_def split_lines_append)
  qed
  then show ?thesis
    by (simp add: extract_lines_performOcr) (simp add: performOcr_def)
qed

theorem performOcr_keeps_first_three_lines_witness:
  "3 \<le> length (filter (\<lambda>line. 1 < length (trim line)) (split_lines (hebrew_cover @ LF # publisher_line))) \<and>
   performOcr (Some ((hebrew_cover @ LF # publisher_line) @ LF # price_line)) =
     [0x5E2, 0x5DE, 0x5D9, 0x5D7, 0x5D9, 0x20, 0x5E9, 0x5D9, 0x5E8, 0x5D9, 0x20, 0x5D0, 0x5D4, 0x5D1, 0x5D4,
      0x20, 0x5E2, 0x5DD, 0x20, 0x5E2, 0x5D5, 0x5D1, 0x5D3]"
proof -
  have q: "filter (\<lambda>line. 1 < length (trim line)) (split_lines (hebrew_cover @ LF # publisher_line)) =
      [ [0x5E2, 0x5DE, 0x5D9, 0x5D7, 0x5D9], [0x5E9, 0x5D9, 0x5E8, 0x5D9, 0x20, 0x5D0, 0x5D4, 0x5D1, 0x5D4],
       [0x5E2, 0x5DD, 0x20, 0x5E2, 0x5D5, 0x5D1, 0x5D3]]"
    by (simp add: hebrew_cover_def publisher_line_def LF_def trim_def isWhiteSpace_def)
  have ne: "hebrew_cover @ LF # publisher_line \<noteq> []" by simp
  have "performOcr (Some (hebrew_cover @ LF # publisher_line)) =
     [0x5E2, 0x5DE, 0x5D9, 0x5D7, 0x5D9, 0x20, 0x5E9, 0x5D9, 0x5E8, 0x5D9, 0x20, 0x5D0, 0x5D4, 0x5D1, 0x5D4,
      0x20, 0x5E2, 0x5DD, 0x20, 0x5E2, 0x5D5, 0x5D1, 0x5D3]"
    unfolding performOcr_def option.case if_not_P [OF ne] q
    by (simp add: SP_def trim_def isWhiteSpace_def)
  then show ?thesis
    using performOcr_keeps_first_three_lines [of "hebrew_cover @ LF # publisher_line" price_line None] q
    by simp
qed

text \<open>
  C1, as the code has it. The scan reports \<open>No text detected.\<close>, and calls neither the AI
  nor the cover lookup, exactly when the reply's \<open>success\<close> is false or its text is
  missing or empty; for a reply of the repository's own OCR function that is exactly when
  no line remains after filtering.
\<close>

theorem no_text_detected_exactly_when_text_missing:
  "(ocr_service e base64 = OcrReply data \<longrightarrow>
      (if success data \<and> ocr_text data \<noteq> None \<and> ocr_text data \<noteq> Some []
       then error (ui (handleScanCover e s0 (Some (Decodable base64)))) = None
       else error (ui (handleScanCover e s0 (Some (Decodable base64)))) = Some (ascii ''No text detected.'') \<and>
            calls (handleScanCover e s0 (Some (Decodable base64))) = [])) \<and>
   (ocr_service e base64 = OcrReply (ocrHandler_reply (performOcr v)) \<longrightarrow>
      (extract_lines (performOcr v) = [] \<longleftrightarrow>
         error (ui (handleScanCover e s0 (Some (Decodable base64)))) = Some (ascii ''No text detected.'') \<and>
         calls (handleScanCover e s0 (Some (Decodable base64))) = []))"
proof -
  have A: "(if success d \<and> ocr_text d \<noteq> None \<and> ocr_text d \<noteq> Some []
       then error (ui (handleScanCover e s0 (Some (Decodable base64)))) = None
       else error (ui (handleScanCover e s0 (Some (Decodable base64)))) = Some (ascii ''No text detected.'') \<and>
            calls (handleScanCover e s0 (Some (Decodable base64))) = [])"
    if "ocr_service e base64 = OcrReply d" for d
    using that
    by (auto simp: handleScanCover_def encodeImage_def fail_with_def identify_def reset_def Let_def
        split: option.splits)
  have B: "extract_lines (performOcr v) = [] \<longleftrightarrow>
         error (ui (handleScanCover e s0 (Some (Decodable base64)))) = Some (ascii ''No text detected.'') \<and>
         calls (handleScanCover e s0 (Some (Decodable base64))) = []"
    if "ocr_service e base64 = OcrReply (ocrHandler_reply (performOcr v))"
    using A [OF that] by (auto simp: ocrHandler_reply_def extract_lines_performOcr split: if_splits)
  from A B show ?thesis by blast
qed

theorem no_text_detected_exactly_when_text_missing_witness:
  "ocr_service (sample_env\<lparr>ocr_service := \<lambda>base64. OcrReply (ocrHandler_reply (performOcr None))\<rparr>) [] =
     OcrReply (ocrHandler_reply (performOcr None)) \<and>
   extract_lines (performOcr None) = [] \<and>
   error (ui (handleScanCover (sample_env\<lparr>ocr_service := \<lambda>base64. OcrReply (ocrHandler_reply (performOcr None))\<rparr>)
                reset (Some (Decodable [])))) = Some (ascii ''No text detected.'') \<and>
   calls (handleScanCover (sample_env\<lparr>ocr_service := \<lambda>base64. OcrReply (ocrHandler_reply (performOcr None))\<rparr>)
                reset (Some (Decodable []))) = []"
proof -
  have x: "extract_lines (performOcr None) = []"
    by (simp add: performOcr_def extract_lines_def trim_def)
  show ?thesis
    using no_text_detected_exactly_when_text_missing
      [of "sample_env\<lparr>ocr_service := \<lambda>base64. OcrReply (ocrHandler_reply (performOcr None))\<rparr>" "[]"
          "ocrHandler_reply (performOcr None)" reset None] x
    by simp
qed

text \<open>
  C1 as stated fails for a reply the code accepts: a text of one stray letter leaves no
  line after filtering, yet no error is recorded and the AI and the cover lookup are called
  with the empty list of lines.
\<close>

theorem no_text_counterexample:
  "extract_lines [0x5EA] = [] \<and>
   ocr_service noise_env [] = OcrReply \<lparr>success = True, ocr_text = Some [0x5EA]\<rparr> \<and>
   error (ui (handleScanCover noise_env reset (Some (Decodable [])))) = None \<and>
   calls (handleScanCover noise_env reset (Some (Decodable []))) =
     [CallTestAI, CallFetchBookData [], CoverRequest 0, Sleep 1000, CoverRequest 1]"
proof -
  have x: "extract_lines [0x5EA] = []"
    by (simp add: extract_lines_def LF_def trim_def isWhiteSpace_def)
  have nb: "BACKTICK \<notin> set title_reply"
    by (simp add: title_reply_def quoted_def ascii_def BACKTICK_def)
  have cl: "cleanJson (fence title_reply) = title_reply"
    by (simp add: cleanJson_fence [OF nb]) (simp add: title_reply_def quoted_def ascii_def trim_def isWhiteSpace_def)
  have tq: "title_query title_record = Inr (JStr (ascii ''X''))"
    by (simp add: title_query_def title_record_def ascii_def)
  have cov: "fetchCoverWithRetry (books_api noise_env (JStr (ascii ''X''))) =
             (Some (ascii ''https://books.example/x.jpg''), [CoverRequest 0, Sleep 1000, CoverRequest 1])"
    by (simp add: noise_env_def sample_env_def fetchCoverWithRetry_def try_cover_def thumbnail_of_def
        volume_with_thumbnail_def ascii_def startsWith_def)
  have p: "JSON_parse noise_env title_reply = Some title_record"
    by (simp add: noise_env_def sample_env_def sample_parse_def)
  have d: "cover_events (decode_reply noise_env (fence title_reply)) = [CoverRequest 0, Sleep 1000, CoverRequest 1]"
    by (simp add: decode_reply_def cl p tq cov)
  have i: "inference noise_env [] = AiText (Some (fence title_reply))"
    by (simp add: noise_env_def sample_env_def)
  have f: "cover_events (fetchBookData noise_env []) = [CoverRequest 0, Sleep 1000, CoverRequest 1]"
    by (simp add: fetchBookData_def i fence_not_Nil d)
  have o: "ocr_service noise_env [] = OcrReply \<lparr>success = True, ocr_text = Some [0x5EA]\<rparr>"
    by (simp add: noise_env_def)
  show ?thesis
    by (simp add: x o handleScanCover_def encodeImage_def identify_def Let_def reset_def f)
qed

section \<open>Parsing the inference reply\<close>

text \<open>
  C6. For a reply text \<open>s\<close> without backticks, the cleaning step maps the fenced form
  and \<open>s\<close> itself to the same text, \<open>trim s\<close>, so that whatever \<open>JSON.parse\<close> does
  the rest of \<open>fetchBookData\<close> produces the same outcome for both, and so does
  \<open>fetchBookData\<close> as a whole when \<open>s\<close> is not empty.
\<close>

theorem fenced_reply_parses_like_unwrapped:
  assumes "BACKTICK \<notin> set s"
  shows "cleanJson (fence s) = cleanJson s \<and> cleanJson s = trim s \<and>
         decode_reply e (fence s) = decode_reply e s \<and>
         (s \<noteq> [] \<longrightarrow>
            fetchBookData (e\<lparr>inference := \<lambda>ocrLines. AiText (Some (fence s))\<rparr>) ls =
            fetchBookData (e\<lparr>inference := \<lambda>ocrLines. AiText (Some s)\<rparr>) ls)"
proof -
  have c: "cleanJson (fence s) = cleanJson s"
    using assms by (simp add: cleanJson_fence cleanJson_plain)
  then have d: "decode_reply e' (fence s) = decode_reply e' s" for e'
    by (simp add: decode_reply_def)
  have upd: "decode_reply (e\<lparr>inference := f\<rparr>) t = decode_reply e t" for f t
    by (simp add: decode_reply_def split: option.splits sum.splits)
  have "fetchBookData (e\<lparr>inference := \<lambda>ocrLines. AiText (Some (fence s))\<rparr>) ls =
        fetchBookData (e\<lparr>inference := \<lambda>ocrLines. AiText (Some s)\<rparr>) ls" if "s \<noteq> []"
    using that by (simp add: fetchBookData_def fence_not_Nil upd d)
  with c d assms show ?thesis by (simp add: cleanJson_plain)
qed

theorem fenced_reply_parses_like_unwrapped_witness:
  "BACKTICK \<notin> set title_reply \<and>
   cleanJson (fence title_reply) = title_reply \<and>
   returned (decode_reply sample_env (fence title_reply)) = returned (decode_reply sample_env title_reply) \<and>
   returned (decode_reply sample_env title_reply) =
     Some \<lparr>props = [(ascii ''title'', JStr (ascii ''X''))],
           coverUri = Some (ascii ''https://books.example/x.jpg'')\<rparr>"
proof -
  have nb: "BACKTICK \<notin> set title_reply"
    by (simp add: title_reply_def quoted_def ascii_def BACKTICK_def)
  have tr: "trim title_reply = title_reply"
    by (simp add: title_reply_def quoted_def ascii_def trim_def isWhiteSpace_def)
  have cl: "cleanJson title_reply = title_reply"
    using fenced_reply_parses_like_unwrapped [OF nb, of sample_env "[]"] tr by simp
  have tq: "title_query title_record = Inr (JStr (ascii ''X''))"
    by (simp add: title_query_def title_record_def ascii_def)
  have cov: "fetchCoverWithRetry (books_api sample_env (JStr (ascii ''X''))) =
             (Some (ascii ''https://books.example/x.jpg''), [CoverRequest 0, Sleep 1000, CoverRequest 1])"
    by (simp add: sample_env_def fetchCoverWithRetry_def try_cover_def thumbnail_of_def
        volume_with_thumbnail_def ascii_def startsWith_def)
  have "returned (decode_reply sample_env title_reply) =
     Some \<lparr>props = [(ascii ''title'', JStr (ascii ''X''))],
           coverUri = Some (ascii ''https://books.example/x.jpg'')\<rparr>"
    unfolding decode_reply_def cl
    by (simp add: sample_env_def sample_parse_def tq [unfolded title_record_def] cov [unfolded sample_env_def, simplified] title_record_def)
      (simp add: ascii_def)
  with nb tr show ?thesis
    using fenced_reply_parses_like_unwrapped [OF nb, of sample_env "[]"] by simp
qed

text \<open>
  C7. A reply without text, or with empty text, makes \<open>fetchBookData\<close> return
  \<open>undefined\<close> at once; a reply whose cleaned text \<open>JSON.parse\<close> rejects makes it log
  the SyntaxError and return \<open>undefined\<close>. In neither case is a record built or the
  cover lookup called.
\<close>

theorem empty_or_malformed_reply_gives_no_record:
  "(inference e lines = AiText None \<or> inference e lines = AiText (Some []) \<longrightarrow>
      fetchBookData e lines = \<lparr>returned = None, console = [], cover_events = []\<rparr>) \<and>
   (inference e lines = AiText (Some resultText) \<and> resultText \<noteq> [] \<and>
    JSON_parse e (cleanJson resultText) = None \<longrightarrow>
      fetchBookData e lines = \<lparr>returned = None, console = [SyntaxError], cover_events = []\<rparr>)"
  by (auto simp: fetchBookData_def decode_reply_def)

theorem empty_or_malformed_reply_gives_no_record_witness:
  "inference malformed_env [] = AiText (Some (ascii ''not json'')) \<and>
   JSON_parse malformed_env (cleanJson (ascii ''not json'')) = None \<and>
   fetchBookData malformed_env [] = \<lparr>returned = None, console = [SyntaxError], cover_events = []\<rparr> \<and>
   fetchBookData (sample_env\<lparr>inference := \<lambda>ocrLines. AiText None\<rparr>) [] =
     \<lparr>returned = None, console = [], cover_events = []\<rparr>"
proof -
  have i: "inference malformed_env [] = AiText (Some (ascii ''not json''))"
    by (simp add: malformed_env_def)
  have ne: "ascii ''not json'' \<noteq> []"
    by (simp add: ascii_def)
  have nb: "BACKTICK \<notin> set (ascii ''not json'')"
    by (simp add: ascii_def BACKTICK_def)
  have cl: "cleanJson (ascii ''not json'') = ascii ''not json''"
    by (simp add: cleanJson_plain [OF nb]) (simp add: ascii_def trim_def isWhiteSpace_def)
  have p: "JSON_parse malformed_env (cleanJson (ascii ''not json'')) = None"
    unfolding cl
    by (simp add: malformed_env_def sample_env_def sample_parse_def title_reply_def quoted_def ascii_def)
  show ?thesis
    using i p empty_or_malformed_reply_gives_no_record [of malformed_env "[]" "ascii ''not json''"]
      empty_or_malformed_reply_gives_no_record [of "sample_env\<lparr>inference := \<lambda>ocrLines. AiText None\<rparr>" "[]" "[]"]
      ne
    by simp
qed

section \<open>The cover lookup\<close>

text \<open>
  C5, as the code has it. When each of the two attempts is answered with status 429 or
  fails with an exception, \<open>fetchCoverWithRetry\<close> makes exactly two requests, sleeps
  1000 ms after each 429 answer and not at all after an exception, and returns
  \<open>undefined\<close>.
\<close>

theorem rate_limited_lookup_gives_no_cover:
  assumes "\<forall>i<2. net i = FetchRejects \<or> (\<exists>body. net i = Responds 429 body)"
  shows "fetchCoverWithRetry net =
           (None, concat (map (\<lambda>i. if net i = FetchRejects then [CoverRequest i]
                                     else [CoverRequest i, Sleep 1000]) [0, 1])) \<and>
         (JSON_parse e (cleanJson resultText) = Some bookData \<and>
          title_query bookData = Inr title \<and> books_api e title = net \<longrightarrow>
            returned (decode_reply e resultText) =
              Some \<lparr>props = filter (\<lambda>(k, v). k \<noteq> ascii ''coverUri'') (spread bookData),
                    coverUri = None\<rparr>)"
proof -
  have t: "try_cover (net i) = (if net i = FetchRejects then Caught else Backoff)" if "i < 2" for i
    using assms that by (auto simp: try_cover_def)
  have t0: "try_cover (net 0) = (if net 0 = FetchRejects then Caught else Backoff)"
    by (rule t) simp
  have t1: "try_cover (net 1) = (if net 1 = FetchRejects then Caught else Backoff)"
    by (rule t) simp
  have loop: "fetchCoverWithRetry net =
           (None, concat (map (\<lambda>i. if net i = FetchRejects then [CoverRequest i]
                                     else [CoverRequest i, Sleep 1000]) [0, 1]))"
    unfolding fetchCoverWithRetry_def cover_loop_two t0 t1 by simp
  then have "returned (decode_reply e resultText) =
              Some \<lparr>props = filter (\<lambda>(k, v). k \<noteq> ascii ''coverUri'') (spread bookData),
                    coverUri = None\<rparr>"
    if "JSON_parse e (cleanJson resultText) = Some bookData" "title_query bookData = Inr title"
      "books_api e title = net"
    using that by (simp add: decode_reply_def)
  with loop show ?thesis by blast
qed

theorem rate_limited_lookup_gives_no_cover_witness:
  "fetchCoverWithRetry (\<lambda>i. Responds 429 None) =
     (None, [CoverRequest 0, Sleep 1000, CoverRequest 1, Sleep 1000]) \<and>
   fetchCoverWithRetry (\<lambda>i. if i = 0 then FetchRejects else Responds 429 None) =
     (None, [CoverRequest 0, CoverRequest 1, Sleep 1000])"
proof -
  have h: "\<forall>i<2. (\<lambda>i. Responds 429 None) i = FetchRejects \<or>
                 (\<exists>body. (\<lambda>i. Responds 429 None) i = Responds 429 body)"
    by simp
  have k: "\<forall>i<2. (\<lambda>i. if i = 0 then FetchRejects else Responds 429 None) i = FetchRejects \<or>
                 (\<exists>body. (\<lambda>i. if i = 0 then FetchRejects else Responds 429 None) i = Responds 429 body)"
    by simp
  show ?thesis
    using rate_limited_lookup_gives_no_cover [OF h] rate_limited_lookup_gives_no_cover [OF k] by simp
qed

text \<open>
  C5 as stated fails where the attempts throw: the retry follows at once, with no backoff
  in between.
\<close>

theorem retry_without_backoff_counterexample:
  "fetchCoverWithRetry (\<lambda>i. FetchRejects) = (None, [CoverRequest 0, CoverRequest 1])"
  unfolding fetchCoverWithRetry_def cover_loop_two by (simp add: try_cover_def)

text \<open>
  C8, as the code has it. For an answer (not a 429) whose first volume has a non-empty
  thumbnail string, the cover is that string with its first occurrence of \<open>http:\<close>
  replaced by \<open>https:\<close>: a URL that starts with \<open>http:\<close> gets the scheme
  \<open>https:\<close>, a URL in which \<open>http:\<close> does not occur is returned unchanged. Without a
  thumbnail, or with an empty one, the result is \<open>undefined\<close>.
\<close>

theorem thumbnail_first_http_replaced:
  "(status \<noteq> 429 \<and> thumbnail_of data = Inr (Some (JStr url)) \<and> url \<noteq> [] \<longrightarrow>
      try_cover (Responds status (Some data)) =
        Return (Some (replace_first (ascii ''http:'') (ascii ''https:'') url))) \<and>
   (net 0 = Responds status (Some data) \<and> status \<noteq> 429 \<and>
    thumbnail_of data = Inr (Some (JStr url)) \<and> url \<noteq> [] \<longrightarrow>
      fetchCoverWithRetry net =
        (Some (replace_first (ascii ''http:'') (ascii ''https:'') url), [CoverRequest 0])) \<and>
   ((net 0 = FetchRejects \<or> net 0 = Responds 429 body0) \<and>
    net 1 = Responds status (Some data) \<and> status \<noteq> 429 \<and>
    thumbnail_of data = Inr (Some (JStr url)) \<and> url \<noteq> [] \<longrightarrow>
      fst (fetchCoverWithRetry net) =
        Some (replace_first (ascii ''http:'') (ascii ''https:'') url)) \<and>
   (startsWith url (ascii ''http:'') \<longrightarrow>
      replace_first (ascii ''http:'') (ascii ''https:'') url = ascii ''https:'' @ drop 5 url) \<and>
   (\<not> contains url (ascii ''http:'') \<longrightarrow>
      replace_first (ascii ''http:'') (ascii ''https:'') url = url) \<and>
   (net 0 = Responds status (Some data) \<and> status \<noteq> 429 \<and>
    (thumbnail_of data = Inr None \<or> thumbnail_of data = Inr (Some (JStr []))) \<longrightarrow>
      fetchCoverWithRetry net = (None, [CoverRequest 0]))"
proof -
  have t: "try_cover (Responds status (Some data)) =
        Return (Some (replace_first (ascii ''http:'') (ascii ''https:'') url))"
    if "status \<noteq> 429" "thumbnail_of data = Inr (Some (JStr url))" "url \<noteq> []"
    using that by (simp add: try_cover_def)
  have a: "fetchCoverWithRetry net =
        (Some (replace_first (ascii ''http:'') (ascii ''https:'') url), [CoverRequest 0])"
    if "net 0 = Responds status (Some data)" "status \<noteq> 429"
      "thumbnail_of data = Inr (Some (JStr url))" "url \<noteq> []"
    unfolding fetchCoverWithRetry_def cover_loop_two using that t by simp
  have a': "fst (fetchCoverWithRetry net) =
        Some (replace_first (ascii ''http:'') (ascii ''https:'') url)"
    if "net 0 = FetchRejects \<or> net 0 = Responds 429 body0"
      "net 1 = Responds status (Some data)" "status \<noteq> 429"
      "thumbnail_of data = Inr (Some (JStr url))" "url \<noteq> []"
  proof -
    from that(1) have "try_cover (net 0) = Caught \<or> try_cover (net 0) = Backoff"
      by (auto simp: try_cover_def)
    moreover from that(2-5) t
    have "try_cover (net 1) = Return (Some (replace_first (ascii ''http:'') (ascii ''https:'') url))"
      by simp
    ultimately show ?thesis
      unfolding fetchCoverWithRetry_def cover_loop_two by auto
  qed
  have b: "replace_first (ascii ''http:'') (ascii ''https:'') url = ascii ''https:'' @ drop 5 url"
    if "startsWith url (ascii ''http:'')"
  proof -
    from that have "url \<noteq> []" by (auto simp: startsWith_def ascii_def)
    with that have "replace_first (ascii ''http:'') (ascii ''https:'') url =
        ascii ''https:'' @ drop (length (ascii ''http:'')) url"
      by (rule replace_first_prefix)
    moreover have "length (ascii ''http:'') = 5" by (simp add: ascii_def)
    ultimately show ?thesis by (simp only:)
  qed
  have c: "replace_first (ascii ''http:'') (ascii ''https:'') url = url"
    if "\<not> contains url (ascii ''http:'')"
    using that by (rule replace_first_absent)
  have d: "fetchCoverWithRetry net = (None, [CoverRequest 0])"
    if "net 0 = Responds status (Some data)" "status \<noteq> 429"
      "thumbnail_of data = Inr None \<or> thumbnail_of data = Inr (Some (JStr []))"
    unfolding fetchCoverWithRetry_def cover_loop_two using that by (auto simp: try_cover_def)
  from t a a' b c d show ?thesis by blast
qed

theorem thumbnail_first_http_replaced_witness:
  "thumbnail_of (volume_with_thumbnail (ascii ''http://books.example/x.jpg'')) =
     Inr (Some (JStr (ascii ''http://books.example/x.jpg''))) \<and>
   startsWith (ascii ''http://books.example/x.jpg'') (ascii ''http:'') \<and>
   fetchCoverWithRetry (\<lambda>i. Responds 200 (Some (volume_with_thumbnail (ascii ''http://books.example/x.jpg'')))) =
     (Some (ascii ''https://books.example/x.jpg''), [CoverRequest 0]) \<and>
   \<not> contains (ascii ''https://books.example/x.jpg'') (ascii ''http:'') \<and>
   replace_first (ascii ''http:'') (ascii ''https:'') (ascii ''https://books.example/x.jpg'') =
     ascii ''https://books.example/x.jpg'' \<and>
   thumbnail_of (JObj []) = Inr None \<and>
   fetchCoverWithRetry (\<lambda>i. Responds 200 (Some (JObj []))) = (None, [CoverRequest 0])"
proof -
  have th: "thumbnail_of (volume_with_thumbnail (ascii ''http://books.example/x.jpg'')) =
     Inr (Some (JStr (ascii ''http://books.example/x.jpg'')))"
    by (simp add: thumbnail_of_def volume_with_thumbnail_def ascii_def)
  have sw: "startsWith (ascii ''http://books.example/x.jpg'') (ascii ''http:'')"
    by (simp add: startsWith_def ascii_def)
  have nc: "\<not> contains (ascii ''https://books.example/x.jpg'') (ascii ''http:'')"
    by (simp add: startsWith_def ascii_def)
  have ne: "ascii ''http://books.example/x.jpg'' \<noteq> []"
    by (simp add: ascii_def)
  have dr: "ascii ''https:'' @ drop 5 (ascii ''http://books.example/x.jpg'') = ascii ''https://books.example/x.jpg''"
    by (simp add: ascii_def)
  have tn: "thumbnail_of (JObj []) = Inr None"
    by (simp add: thumbnail_of_def)
  show ?thesis
    using th sw nc ne dr tn
      thumbnail_first_http_replaced
        [where status = 200
           and data = "volume_with_thumbnail (ascii ''http://books.example/x.jpg'')"
           and url = "ascii ''http://books.example/x.jpg''"
           and net = "\<lambda>i. Responds 200 (Some (volume_with_thumbnail (ascii ''http://books.example/x.jpg'')))"]
      thumbnail_first_http_replaced
        [where status = 200 and data = "JObj []" and url = "ascii ''https://books.example/x.jpg''"
           and net = "\<lambda>i. Responds 200 (Some (JObj []))"]
    by simp
qed

text \<open>
  C8 as stated fails for an \<open>https:\<close> thumbnail that carries an \<open>http:\<close> link in its
  query: it is not returned unchanged.
\<close>

theorem embedded_http_counterexample:
  "thumbnail_of (volume_with_thumbnail (ascii ''https://books.example/x?u=http://y'')) =
     Inr (Some (JStr (ascii ''https://books.example/x?u=http://y''))) \<and>
   startsWith (ascii ''https://books.example/x?u=http://y'') (ascii ''https:'') \<and>
   fetchCoverWithRetry (\<lambda>i. Responds 200 (Some (volume_with_thumbnail (ascii ''https://books.example/x?u=http://y'')))) =
     (Some (ascii ''https://books.example/x?u=https://y''), [CoverRequest 0]) \<and>
   ascii ''https://books.example/x?u=https://y'' \<noteq> ascii ''https://books.example/x?u=http://y''"
  unfolding fetchCoverWithRetry_def cover_loop_two
  by (simp add: try_cover_def thumbnail_of_def volume_with_thumbnail_def startsWith_def ascii_def)

section \<open>The orchestration of a scan\<close>

text \<open>
  C3. A scan that has recorded an error has called neither the AI nor the cover lookup,
  shows no lines and no book, and has finished; a failure of the text extraction (the
  request throws, or the reply has no success flag or no text) records an error and makes
  no such call; and when the inference yields no record, no cover request is made.
\<close>

theorem recorded_error_stops_the_scan:
  "(error (ui (handleScanCover e s0 file)) \<noteq> None \<longrightarrow> calls (handleScanCover e s0 file) = []) \<and>
   (error (ui (handleScanCover e s0 (Some f))) \<noteq> None \<longrightarrow>
      bookResult (ui (handleScanCover e s0 (Some f))) = None \<and>
      ocrLines (ui (handleScanCover e s0 (Some f))) = [] \<and>
      \<not> isLoading (ui (handleScanCover e s0 (Some f))) \<and>
      settled (handleScanCover e s0 (Some f))) \<and>
   (encodeImage f = Resolved base64 \<and>
    (ocr_service e base64 = OcrRejects m \<or>
     ocr_service e base64 = OcrReply data \<and>
       (\<not> success data \<or> ocr_text data = None \<or> ocr_text data = Some [])) \<longrightarrow>
      error (ui (handleScanCover e s0 (Some f))) \<noteq> None \<and>
      calls (handleScanCover e s0 (Some f)) = []) \<and>
   (returned (fetchBookData e ls) = None \<longrightarrow> cover_events (fetchBookData e ls) = [])"
proof -
  have 1: "calls (handleScanCover e s0 file) = []" if "error (ui (handleScanCover e s0 file)) \<noteq> None"
    using that
    by (auto simp: handleScanCover_def fail_with_simps error_identify reset_def
        split: option.splits promise.splits ocr_fetch.splits if_splits)
  have 2: "bookResult (ui (handleScanCover e s0 (Some f))) = None \<and>
      ocrLines (ui (handleScanCover e s0 (Some f))) = [] \<and>
      \<not> isLoading (ui (handleScanCover e s0 (Some f))) \<and>
      settled (handleScanCover e s0 (Some f))"
    if "error (ui (handleScanCover e s0 (Some f))) \<noteq> None"
    using that
    by (auto simp: handleScanCover_def fail_with_simps error_identify reset_def
        split: option.splits promise.splits ocr_fetch.splits if_splits)
  have 3: "error (ui (handleScanCover e s0 (Some f))) \<noteq> None \<and>
      calls (handleScanCover e s0 (Some f)) = []"
    if "encodeImage f = Resolved base64"
      and "ocr_service e base64 = OcrRejects m \<or>
           ocr_service e base64 = OcrReply data \<and>
           (\<not> success data \<or> ocr_text data = None \<or> ocr_text data = Some [])"
    using that by (auto simp: handleScanCover_def fail_with_simps)
  from 1 2 3 no_record_no_cover_request [of e ls] show ?thesis by blast
qed

theorem recorded_error_stops_the_scan_witness:
  "encodeImage (Decodable []) = Resolved [] \<and>
   error (ui (handleScanCover (sample_env\<lparr>ocr_service := \<lambda>base64. OcrReply server_error_reply\<rparr>) reset
                (Some (Decodable [])))) = Some (ascii ''No text detected.'') \<and>
   calls (handleScanCover (sample_env\<lparr>ocr_service := \<lambda>base64. OcrReply server_error_reply\<rparr>) reset
                (Some (Decodable []))) = []"
proof -
  have err: "error (ui (handleScanCover (sample_env\<lparr>ocr_service := \<lambda>base64. OcrReply server_error_reply\<rparr>) reset
                (Some (Decodable [])))) = Some (ascii ''No text detected.'')"
    by (simp add: handleScanCover_def encodeImage_def server_error_reply_def fail_with_simps)
  show ?thesis
    using err recorded_error_stops_the_scan
      [of "sample_env\<lparr>ocr_service := \<lambda>base64. OcrReply server_error_reply\<rparr>" reset
          "Some (Decodable [])" "Decodable []" "[]" "[]" server_error_reply "[]"]
    by (simp add: encodeImage_def)
qed

text \<open>
  C2, as the code has it. When the extraction yields text, the scan ends without an error,
  and the book shown is the placeholder when \<open>fetchBookData\<close> returned
  \<open>undefined\<close>, and otherwise the record it returned, whatever that holds.
\<close>

theorem placeholder_only_when_no_record:
  assumes "ocr_service e base64 = OcrReply data" and "success data"
    and "ocr_text data = Some t" and "t \<noteq> []"
  shows "error (ui (handleScanCover e s0 (Some (Decodable base64)))) = None \<and>
         settled (handleScanCover e s0 (Some (Decodable base64))) \<and>
         bookResult (ui (handleScanCover e s0 (Some (Decodable base64)))) =
           (case returned (fetchBookData e (extract_lines t)) of
              None \<Rightarrow> Some placeholder
            | Some result \<Rightarrow> Some result)"
  using assms
  by (simp add: handleScanCover_def encodeImage_def identify_def reset_def Let_def)

theorem placeholder_only_when_no_record_witness:
  "ocr_service malformed_env [] = OcrReply \<lparr>success = True, ocr_text = Some hebrew_cover\<rparr> \<and>
   hebrew_cover \<noteq> [] \<and>
   returned (fetchBookData malformed_env (extract_lines hebrew_cover)) = None \<and>
   error (ui (handleScanCover malformed_env reset (Some (Decodable [])))) = None \<and>
   bookResult (ui (handleScanCover malformed_env reset (Some (Decodable [])))) = Some placeholder"
proof -
  have o: "ocr_service malformed_env [] = OcrReply \<lparr>success = True, ocr_text = Some hebrew_cover\<rparr>"
    by (simp add: malformed_env_def sample_env_def)
  have ne: "hebrew_cover \<noteq> []"
    by (simp add: hebrew_cover_def)
  have nb: "BACKTICK \<notin> set (ascii ''not json'')"
    by (simp add: ascii_def BACKTICK_def)
  have cl: "cleanJson (ascii ''not json'') = ascii ''not json''"
    by (simp add: cleanJson_plain [OF nb]) (simp add: ascii_def trim_def isWhiteSpace_def)
  have p: "JSON_parse malformed_env (cleanJson (ascii ''not json'')) = None"
    unfolding cl
    by (simp add: malformed_env_def sample_env_def sample_parse_def title_reply_def quoted_def ascii_def)
  have r: "returned (fetchBookData malformed_env ls) = None" for ls
    by (simp add: fetchBookData_def malformed_env_def decode_reply_def p [unfolded malformed_env_def, simplified])
  show ?thesis
    using o ne r placeholder_only_when_no_record [OF o _ _ ne, of reset] by simp
qed

text \<open>
  C2 as stated fails when the AI replies \<open>{}\<close>: the record has no title, and it is
  shown as it is, not replaced by the placeholder.
\<close>

theorem record_without_title_counterexample:
  "returned (fetchBookData empty_record_env []) =
     Some \<lparr>props = [], coverUri = Some (ascii ''https://books.example/x.jpg'')\<rparr> \<and>
   map_of (props \<lparr>props = [], coverUri = Some (ascii ''https://books.example/x.jpg'')\<rparr>) (ascii ''title'') = None \<and>
   error (ui (handleScanCover empty_record_env reset (Some (Decodable [])))) = None \<and>
   bookResult (ui (handleScanCover empty_record_env reset (Some (Decodable [])))) =
     Some \<lparr>props = [], coverUri = Some (ascii ''https://books.example/x.jpg'')\<rparr> \<and>
   bookResult (ui (handleScanCover empty_record_env reset (Some (Decodable [])))) \<noteq> Some placeholder"
proof -
  have nb: "BACKTICK \<notin> set (ascii ''{}'')"
    by (simp add: ascii_def BACKTICK_def)
  have cl: "cleanJson (ascii ''{}'') = ascii ''{}''"
    by (simp add: cleanJson_plain [OF nb]) (simp add: ascii_def trim_def isWhiteSpace_def)
  have p: "JSON_parse empty_record_env (ascii ''{}'') = Some (JObj [])"
    by (simp add: empty_record_env_def sample_env_def sample_parse_def title_reply_def quoted_def ascii_def)
  have tq: "title_query (JObj []) = Inr (JStr [])"
    by (simp add: title_query_def)
  have cov: "fetchCoverWithRetry (books_api empty_record_env (JStr [])) =
             (Some (ascii ''https://books.example/x.jpg''), [CoverRequest 0, Sleep 1000, CoverRequest 1])"
    by (simp add: empty_record_env_def sample_env_def fetchCoverWithRetry_def try_cover_def thumbnail_of_def
        volume_with_thumbnail_def ascii_def startsWith_def)
  have d: "returned (decode_reply empty_record_env (ascii ''{}'')) =
      Some \<lparr>props = [], coverUri = Some (ascii ''https://books.example/x.jpg'')\<rparr>"
    by (simp add: decode_reply_def cl p tq cov)
  have f: "returned (fetchBookData empty_record_env ls) =
      Some \<lparr>props = [], coverUri = Some (ascii ''https://books.example/x.jpg'')\<rparr>" for ls
    using d by (simp add: fetchBookData_def empty_record_env_def ascii_def)
  have o: "ocr_service empty_record_env [] = OcrReply \<lparr>success = True, ocr_text = Some hebrew_cover\<rparr>"
    by (simp add: empty_record_env_def sample_env_def)
  have ne: "hebrew_cover \<noteq> []"
    by (simp add: hebrew_cover_def)
  have b: "bookResult (ui (handleScanCover empty_record_env reset (Some (Decodable [])))) =
     Some \<lparr>props = [], coverUri = Some (ascii ''https://books.example/x.jpg'')\<rparr>"
    by (simp add: handleScanCover_def encodeImage_def o ne identify_def Let_def reset_def f)
  have e: "error (ui (handleScanCover empty_record_env reset (Some (Decodable [])))) = None"
    by (simp add: handleScanCover_def encodeImage_def o ne identify_def Let_def reset_def)
  show ?thesis
    by (simp add: f b e placeholder_def)
qed

text \<open>
  C9. An image that cannot be decoded leaves the encoder's promise pending: the handler
  never reaches its \<open>catch\<close> or \<open>finally\<close>, no error is recorded and the component
  stays loading. Only a file that cannot be read ends in the error state.
\<close>

theorem undecodable_image_never_settles:
  "handleScanCover e s0 (Some Undecodable) = \<lparr>ui = reset, calls = [], settled = False\<rparr> \<and>
   error reset = None \<and> isLoading reset \<and>
   handleScanCover e s0 (Some Unreadable) = fail_with (ascii ''Error: Read failed'')"
  by (simp add: handleScanCover_def encodeImage_def reset_def ascii_def)

end
